theory Spec2Isabelle
  imports Complex_Main "HOL-Library.Multiset" "HOL-Library.Option_ord"
begin

section \<open>Data model of \<^verbatim>\<open>src/routes/Dashboard.tsx\<close>\<close>

text \<open>
  \<^verbatim>\<open>type FaultKey = "serve" | "return" | "net" | "long" | "setup"\<close> and the
  object type \<^verbatim>\<open>Faults\<close> with one \<^verbatim>\<open>number\<close> per key. The counters are
  whole numbers (they start at 0 and move by \<open>\<plusminus>1\<close>; the columns of the table are
  \<^verbatim>\<open>int not null default 0\<close>), so \<^verbatim>\<open>number\<close> is \<open>int\<close> here. The field
  \<^verbatim>\<open>setup\<close> is written \<open>setup'\<close> because \<open>setup\<close> is a keyword of Isabelle.
\<close>

datatype FaultKey = Serve | Return | Net | Long | Setup

record Faults =
  serve :: int
  return :: int
  net :: int
  long :: int
  setup' :: int

text \<open>
  \<^verbatim>\<open>type GameRow\<close>: the columns a row of the table \<^verbatim>\<open>games\<close> shows to the
  client. The columns other than \<^verbatim>\<open>id\<close> are also the ones \<^verbatim>\<open>addGame\<close> sends
  to the store, so they are a record of their own that \<open>GameRow\<close> (adding \<^verbatim>\<open>id\<close>,
  written \<open>id'\<close>) and the insert payload (adding \<^verbatim>\<open>user_id\<close>) extend.
  \<^verbatim>\<open>played_at\<close> is the string the store returns for its \<^verbatim>\<open>timestamptz\<close> column.
\<close>

record game_columns =
  played_at :: string
  my_points :: int
  opp_points :: int
  location :: "string option"
  serve_faults :: int
  return_faults :: int
  into_net :: int
  too_long :: int
  setup_kill :: int

record GameRow = game_columns +
  id' :: int

record games_insert = game_columns +
  user_id :: string

text \<open>
  One element of \<^verbatim>\<open>faultTrendData\<close>: the object literal returned by the callback of
  \<^verbatim>\<open>.map\<close>. Its keys \<^verbatim>\<open>label, serve, return, net, long, setup, total\<close> carry
  the prefix \<open>tp_\<close> here, since \<open>Faults\<close> already owns the short names. The averages are
  quotients of whole numbers; they are exact rationals here (the source computes them
  in IEEE double precision, whose rounding of the quotient is not modelled).
\<close>

record TrendPoint =
  tp_label :: string
  tp_serve :: rat
  tp_return :: rat
  tp_net :: rat
  tp_long :: rat
  tp_setup :: rat
  tp_total :: rat

text \<open>
  The JavaScript \<^verbatim>\<open>Date\<close> built-ins the source calls. They depend on the engine, its
  locale and its time zone, so they are parameters of the model.
  \<^item> \<open>Date_new s\<close> is the time value (milliseconds since the epoch) of
    \<^verbatim>\<open>new Date(s)\<close>; \<open>None\<close> is an Invalid Date, whose \<^verbatim>\<open>getTime()\<close> is NaN.
  \<^item> \<open>Date_setHours d h m\<close> is the time value of \<^verbatim>\<open>d\<close> after
    \<^verbatim>\<open>d.setHours(Number(h), Number(m), 0, 0)\<close> in the local zone.
  \<^item> \<open>Date_toISOString t\<close> is \<^verbatim>\<open>toISOString()\<close> of a valid date.
  \<^item> \<open>Date_toLocaleDateString d\<close> is
    \<^verbatim>\<open>d.toLocaleDateString(undefined, {month: "short", day: "numeric"})\<close>.
\<close>

record js_date =
  Date_new :: "string \<Rightarrow> int option"
  Date_setHours :: "int option \<Rightarrow> string \<Rightarrow> string \<Rightarrow> int option"
  Date_toISOString :: "int \<Rightarrow> string"
  Date_toLocaleDateString :: "int option \<Rightarrow> string"

text \<open>A thrown JavaScript value, of which the source reads only \<^verbatim>\<open>e.message\<close>.\<close>

datatype js_error = Error (message: "string option")

text \<open>The state of the component: one field per \<^verbatim>\<open>useState\<close>. The form's
  \<^verbatim>\<open>location\<close> is written \<open>location'\<close> (the column owns the name).\<close>

record Dashboard =
  date :: string
  time :: string
  myPoints :: int
  oppPoints :: int
  location' :: string
  faults :: Faults
  editingFault :: "FaultKey option"
  adding :: bool
  error :: "string option"
  games :: "GameRow list"
  loadingGames :: bool

section \<open>Fault tally\<close>

definition no_faults :: Faults where
  "no_faults = \<lparr>serve = 0, return = 0, net = 0, long = 0, setup' = 0\<rparr>"

text \<open>The state a freshly mounted component has; \<^verbatim>\<open>now\<close> gives date and time.\<close>

definition initial :: "string \<Rightarrow> string \<Rightarrow> Dashboard" where
  "initial d t =
     \<lparr>date = d, time = t, myPoints = 11, oppPoints = 8, location' = [],
      faults = no_faults, editingFault = None, adding = False, error = None,
      games = [], loadingGames = False\<rparr>"

text \<open>\<^verbatim>\<open>prev[key]\<close> and \<^verbatim>\<open>{ ...prev, [key]: next }\<close>.\<close>

fun get_fault :: "Faults \<Rightarrow> FaultKey \<Rightarrow> int" where
  "get_fault f Serve = serve f"
| "get_fault f Return = return f"
| "get_fault f Net = net f"
| "get_fault f Long = long f"
| "get_fault f Setup = setup' f"

fun set_fault :: "Faults \<Rightarrow> FaultKey \<Rightarrow> int \<Rightarrow> Faults" where
  "set_fault f Serve v = f\<lparr>serve := v\<rparr>"
| "set_fault f Return v = f\<lparr>return := v\<rparr>"
| "set_fault f Net v = f\<lparr>net := v\<rparr>"
| "set_fault f Long v = f\<lparr>long := v\<rparr>"
| "set_fault f Setup v = f\<lparr>setup' := v\<rparr>"

text \<open>
  \<^verbatim>\<open>changeFault(key, delta)\<close>: \<^verbatim>\<open>setFaults\<close> with an updater of the previous
  tally. Every key of \<open>Faults\<close> is present, so \<^verbatim>\<open>prev[key] ?? 0\<close> is \<^verbatim>\<open>prev[key]\<close>.
\<close>

definition changeFault :: "FaultKey \<Rightarrow> int \<Rightarrow> Dashboard \<Rightarrow> Dashboard" where
  "changeFault key delta s =
     s\<lparr>faults :=
         (let prev = faults s;
              next = max 0 (get_fault prev key + delta)
          in set_fault prev key next)\<rparr>"

text \<open>The two buttons of the fault editor: \<^verbatim>\<open>changeFault(editingFault, +1)\<close> and
  \<^verbatim>\<open>changeFault(editingFault, -1)\<close>.\<close>

datatype tally_action = Increment FaultKey | Decrement FaultKey

fun click :: "tally_action \<Rightarrow> Dashboard \<Rightarrow> Dashboard" where
  "click (Increment key) s = changeFault key 1 s"
| "click (Decrement key) s = changeFault key (- 1) s"

definition clicks :: "tally_action list \<Rightarrow> Dashboard \<Rightarrow> Dashboard" where
  "clicks acts s = foldl (\<lambda>st a. click a st) s acts"

section \<open>Fault trend aggregator\<close>

text \<open>\<^verbatim>\<open>rowFaults(g)\<close>. The columns are \<^verbatim>\<open>number\<close> (\<^verbatim>\<open>int not null\<close> in the
  table), so each \<^verbatim>\<open>?? 0\<close> returns its left operand.\<close>

definition rowFaults :: "GameRow \<Rightarrow> Faults" where
  "rowFaults g =
     \<lparr>serve = serve_faults g, return = return_faults g, net = into_net g,
      long = too_long g, setup' = setup_kill g\<rparr>"

text \<open>
  \<^verbatim>\<open>new Date(g.played_at).getTime()\<close>, and the comparator handed to \<^verbatim>\<open>.sort\<close>:
  \<^verbatim>\<open>new Date(a.played_at).getTime() - new Date(b.played_at).getTime()\<close>.
  \<open>None\<close> is NaN, the difference as soon as one date is invalid.
\<close>

definition played_time :: "js_date \<Rightarrow> GameRow \<Rightarrow> int option" where
  "played_time env g = Date_new env (played_at g)"

definition by_played_at :: "js_date \<Rightarrow> GameRow \<Rightarrow> GameRow \<Rightarrow> int option" where
  "by_played_at env a b =
     (case (played_time env a, played_time env b) of
        (Some x, Some y) \<Rightarrow> Some (x - y)
      | _ \<Rightarrow> None)"

text \<open>
  \<^verbatim>\<open>Array.prototype.sort\<close> with a comparator: ECMAScript reads a NaN result as
  \<open>+0\<close> and requires the sort to be stable. The engine's algorithm is its own; for a
  consistent comparator every stable sort returns the same array, computed here by
  inserting from the right, each element before the first one it does not exceed.
  A comparator that returns NaN for some pairs is not consistent, and ECMAScript
  leaves the order to the engine then: the function below is the engine's sort only
  on lists whose dates all parse, and every property of the sorted list is stated
  under that condition.
\<close>

definition SortCompare :: "('a \<Rightarrow> 'a \<Rightarrow> int option) \<Rightarrow> 'a \<Rightarrow> 'a \<Rightarrow> int" where
  "SortCompare cmp x y = (case cmp x y of None \<Rightarrow> 0 | Some v \<Rightarrow> v)"

fun insert_stable :: "('a \<Rightarrow> 'a \<Rightarrow> int option) \<Rightarrow> 'a \<Rightarrow> 'a list \<Rightarrow> 'a list" where
  "insert_stable cmp x [] = [x]"
| "insert_stable cmp x (y # ys) =
     (if SortCompare cmp x y \<le> 0 then x # y # ys else y # insert_stable cmp x ys)"

definition array_sort :: "('a \<Rightarrow> 'a \<Rightarrow> int option) \<Rightarrow> 'a list \<Rightarrow> 'a list" where
  "array_sort cmp xs = foldr (insert_stable cmp) xs []"

text \<open>
  The callback of \<^verbatim>\<open>.map((g, idx) => ...)\<close>, run over the sorted array from left to
  right. It closes over the mutable object \<^verbatim>\<open>totals\<close>; the model passes the totals
  and the index along.
\<close>

fun trend_map :: "js_date \<Rightarrow> Faults \<Rightarrow> nat \<Rightarrow> GameRow list \<Rightarrow> TrendPoint list" where
  "trend_map env totals idx [] = []"
| "trend_map env totals idx (g # gs) =
     (let f = rowFaults g;
          totals1 = \<lparr>serve = serve totals + serve f,
                     return = return totals + return f,
                     net = net totals + net f,
                     long = long totals + long f,
                     setup' = setup' totals + setup' f\<rparr>;
          gameNumber = idx + 1;
          totalFaults = serve totals1 + return totals1 + net totals1 + long totals1
                        + setup' totals1;
          d = Date_new env (played_at g);
          label = Date_toLocaleDateString env d
      in \<lparr>tp_label = label,
          tp_serve = of_int (serve totals1) / of_nat gameNumber,
          tp_return = of_int (return totals1) / of_nat gameNumber,
          tp_net = of_int (net totals1) / of_nat gameNumber,
          tp_long = of_int (long totals1) / of_nat gameNumber,
          tp_setup = of_int (setup' totals1) / of_nat gameNumber,
          tp_total = of_int totalFaults / of_nat gameNumber\<rparr>
         # trend_map env totals1 (idx + 1) gs)"

definition sorted_games :: "js_date \<Rightarrow> GameRow list \<Rightarrow> GameRow list" where
  "sorted_games env gs = array_sort (by_played_at env) gs"

definition faultTrendData :: "js_date \<Rightarrow> GameRow list \<Rightarrow> TrendPoint list" where
  "faultTrendData env gs =
     (if length gs = 0 then []
      else trend_map env no_faults 0 (sorted_games env gs))"

section \<open>Game entry: \<^verbatim>\<open>toPlayedAt\<close> and the payload\<close>

text \<open>
  \<^verbatim>\<open>String.prototype.split(":")\<close>: the pieces between the separators; a string
  without separator, the empty one too, gives one piece.
\<close>

fun split_on :: "char \<Rightarrow> string \<Rightarrow> string list" where
  "split_on c [] = [[]]"
| "split_on c (x # xs) =
     (if x = c then [] # split_on c xs
      else (case split_on c xs of
              [] \<Rightarrow> [[x]]
            | p # ps \<Rightarrow> (x # p) # ps))"

text \<open>\<^verbatim>\<open>d.toISOString()\<close> of an Invalid Date throws a RangeError (the text is V8's).\<close>

definition RangeError :: js_error where
  "RangeError = Error (Some ''Invalid time value'')"

text \<open>
  \<^verbatim>\<open>toPlayedAt(dateStr, timeStr)\<close>. \<^verbatim>\<open>timeStr || ""\<close> is \<^verbatim>\<open>timeStr\<close> for
  every string; the destructuring defaults \<^verbatim>\<open>"00"\<close> stand in for a missing piece.
\<close>

definition toPlayedAt :: "js_date \<Rightarrow> string \<Rightarrow> string \<Rightarrow> js_error + string" where
  "toPlayedAt env dateStr timeStr =
     (let parts = split_on CHR '':'' timeStr;
          h = (case parts of [] \<Rightarrow> ''00'' | x # _ \<Rightarrow> x);
          m = (case parts of _ # y # _ \<Rightarrow> y | _ \<Rightarrow> ''00'');
          d = Date_new env dateStr;
          d1 = Date_setHours env d h m
      in case d1 of None \<Rightarrow> Inl RangeError | Some t \<Rightarrow> Inr (Date_toISOString env t))"

text \<open>
  \<^verbatim>\<open>String.prototype.trim\<close>: strips white space and line terminators from both ends.
  A \<open>char\<close> is one byte, so the strings of the model are Latin-1 and the white space
  is TAB, LF, VT, FF, CR, SPACE and NO-BREAK SPACE.
\<close>

definition is_white_space :: "char \<Rightarrow> bool" where
  "is_white_space c = (of_char c \<in> {9, 10, 11, 12, 13, 32, 160 :: nat})"

definition trim :: "string \<Rightarrow> string" where
  "trim s = rev (dropWhile is_white_space (rev (dropWhile is_white_space s)))"

text \<open>\<^verbatim>\<open>location?.trim() || null\<close>: the empty string is falsy.\<close>

definition location_or_null :: "string \<Rightarrow> string option" where
  "location_or_null loc = (let t = trim loc in if t = [] then None else Some t)"

section \<open>The hosted service\<close>

text \<open>
  Supabase is not part of the repository. The model keeps what the source can observe
  of it:
  \<^item> \<open>session\<close>: what \<^verbatim>\<open>supabase.auth.getUser()\<close> answers now, the pair
    \<^verbatim>\<open>{ data: { user }, error }\<close>;
  \<^item> \<open>games_table\<close>: the rows of \<^verbatim>\<open>games\<close>, each with its owner;
  \<^item> \<open>insert_error\<close>, \<open>select_error\<close>: the error the store answers a write or a read
    with (a policy rejection, a network failure), if any;
  \<^item> \<open>requests\<close>: the calls made so far, oldest first.
\<close>

record User =
  uid :: string

text \<open>The query \<^verbatim>\<open>loadGames\<close> builds:
  \<^verbatim>\<open>.eq("user_id", v).order("played_at", { ascending }).limit(n)\<close>.\<close>

record games_query =
  eq_user_id :: string
  order_ascending :: bool
  limit :: nat

datatype request = GetUser | Insert games_insert | Select games_query

record service =
  session :: "User option \<times> js_error option"
  games_table :: "(string \<times> GameRow) list"
  insert_error :: "js_error option"
  select_error :: "js_error option"
  requests :: "request list"

definition getUser :: "service \<Rightarrow> (User option \<times> js_error option) \<times> service" where
  "getUser w = (session w, w\<lparr>requests := requests w @ [GetUser]\<rparr>)"

text \<open>
  Modelled from the spec: the store collaborator's \<^verbatim>\<open>insert(table, record)\<close>, the
  answer to \<^verbatim>\<open>supabase.from("games").insert(record)\<close>; the store runs on the
  hosted service. A rejected write changes nothing; an accepted one appends one row
  whose \<^verbatim>\<open>id\<close> the store assigns (\<^verbatim>\<open>bigint generated always as identity\<close>
  in the README's schema), larger than every \<^verbatim>\<open>id\<close> in the table.
\<close>

definition next_id :: "(string \<times> GameRow) list \<Rightarrow> int" where
  "next_id rows = fold max (map (\<lambda>r. id' (snd r)) rows) 0 + 1"

definition stored_row :: "int \<Rightarrow> games_insert \<Rightarrow> string \<times> GameRow" where
  "stored_row n p =
     (user_id p,
      \<lparr>played_at = played_at p, my_points = my_points p, opp_points = opp_points p,
       location = location p, serve_faults = serve_faults p,
       return_faults = return_faults p, into_net = into_net p, too_long = too_long p,
       setup_kill = setup_kill p, id' = n\<rparr>)"

definition insert_games :: "games_insert \<Rightarrow> service \<Rightarrow> js_error option \<times> service" where
  "insert_games p w =
     (case insert_error w of
        Some e \<Rightarrow> (Some e, w\<lparr>requests := requests w @ [Insert p]\<rparr>)
      | None \<Rightarrow>
          (None, w\<lparr>games_table := games_table w @ [stored_row (next_id (games_table w)) p],
                    requests := requests w @ [Insert p]\<rparr>))"

text \<open>
  Modelled from the spec: the store collaborator's
  \<^verbatim>\<open>query(table, filter, orderBy, limit)\<close>, the answer to the query
  \<^verbatim>\<open>loadGames\<close> builds; the store runs on the hosted service. The rows whose
  owner is the filter's value, ordered by the time their \<^verbatim>\<open>played_at\<close> denotes
  (in the order of \<open>int option\<close>, an unreadable date below every time), cut to the
  limit, as the selected columns. The order in
  which the store returns rows of equal time is its own; here it is the one of a
  stable sort, reversed for a descending query. The answer is the pair
  \<^verbatim>\<open>{ data, error }\<close>.
\<close>

definition select_games ::
  "js_date \<Rightarrow> games_query \<Rightarrow> service \<Rightarrow> (GameRow list option \<times> js_error option) \<times> service" where
  "select_games env q w =
     (let w1 = w\<lparr>requests := requests w @ [Select q]\<rparr>
      in case select_error w of
           Some e \<Rightarrow> ((None, Some e), w1)
         | None \<Rightarrow>
             (let owned = map snd (filter (\<lambda>r. fst r = eq_user_id q) (games_table w));
                  ascending = sort_key (played_time env) owned;
                  ordered = (if order_ascending q then ascending else rev ascending)
              in ((Some (take (limit q) ordered), None), w1)))"

section \<open>\<^verbatim>\<open>loadGames\<close> and \<^verbatim>\<open>addGame\<close>\<close>

text \<open>
  Each \<^verbatim>\<open>try\<close> block is a function that returns the service, the component state
  at the point where the block ends, and the value thrown, if any; the function of the
  source's name adds what precedes the block, the \<^verbatim>\<open>catch\<close> and the
  \<^verbatim>\<open>finally\<close>.
\<close>

definition loadGames_try ::
  "js_date \<Rightarrow> service \<Rightarrow> Dashboard \<Rightarrow> service \<times> Dashboard \<times> js_error option" where
  "loadGames_try env w s =
     (case getUser w of
        ((user, userErr), w1) \<Rightarrow>
          (case userErr of
             Some e \<Rightarrow> (w1, s, Some e)
           | None \<Rightarrow>
               (case user of
                  None \<Rightarrow> (w1, s, Some (Error (Some ''Not signed in'')))
                | Some u \<Rightarrow>
                    (case select_games env
                            \<lparr>eq_user_id = uid u, order_ascending = False, limit = 25\<rparr> w1 of
                       ((data, dbErr), w2) \<Rightarrow>
                         (case dbErr of
                            Some e \<Rightarrow> (w2, s, Some e)
                          | None \<Rightarrow>
                              (w2, s\<lparr>games := (case data of None \<Rightarrow> [] | Some rows \<Rightarrow> rows)\<rparr>,
                               None))))))"

definition loadGames :: "js_date \<Rightarrow> service \<Rightarrow> Dashboard \<Rightarrow> service \<times> Dashboard" where
  "loadGames env w s =
     (case loadGames_try env w (s\<lparr>loadingGames := True, error := None\<rparr>) of
        (w1, s1, thrown) \<Rightarrow>
          (let s2 = (case thrown of
                       None \<Rightarrow> s1
                     | Some e \<Rightarrow>
                         s1\<lparr>error := Some (case message e of
                                              None \<Rightarrow> ''Failed to load games''
                                            | Some msg \<Rightarrow> msg)\<rparr>)
           in (w1, s2\<lparr>loadingGames := False\<rparr>)))"

text \<open>The object literal handed to \<^verbatim>\<open>.insert\<close>; \<^verbatim>\<open>Number(n)\<close> of a number is
  the number.\<close>

definition payload :: "User \<Rightarrow> string \<Rightarrow> Dashboard \<Rightarrow> games_insert" where
  "payload u played s =
     \<lparr>played_at = played, my_points = myPoints s, opp_points = oppPoints s,
      location = location_or_null (location' s),
      serve_faults = serve (faults s), return_faults = return (faults s),
      into_net = net (faults s), too_long = long (faults s),
      setup_kill = setup' (faults s), user_id = uid u\<rparr>"

definition addGame_try ::
  "js_date \<Rightarrow> service \<Rightarrow> Dashboard \<Rightarrow> service \<times> Dashboard \<times> js_error option" where
  "addGame_try env w s =
     (case getUser w of
        ((user, authErr), w1) \<Rightarrow>
          (case authErr of
             Some e \<Rightarrow> (w1, s, Some e)
           | None \<Rightarrow>
               (case user of
                  None \<Rightarrow> (w1, s, Some (Error (Some ''Not signed in'')))
                | Some u \<Rightarrow>
                    (case toPlayedAt env (date s) (time s) of
                       Inl e \<Rightarrow> (w1, s, Some e)
                     | Inr played \<Rightarrow>
                         (case insert_games (payload u played s) w1 of
                            (dbErr, w2) \<Rightarrow>
                              (case dbErr of
                                 Some e \<Rightarrow> (w2, s, Some e)
                               | None \<Rightarrow>
                                   (case loadGames env w2 (s\<lparr>faults := no_faults\<rparr>) of
                                      (w3, s3) \<Rightarrow> (w3, s3, None))))))))"

definition addGame :: "js_date \<Rightarrow> service \<Rightarrow> Dashboard \<Rightarrow> service \<times> Dashboard" where
  "addGame env w s =
     (case addGame_try env w (s\<lparr>error := None, adding := True\<rparr>) of
        (w1, s1, thrown) \<Rightarrow>
          (let s2 = (case thrown of
                       None \<Rightarrow> s1
                     | Some e \<Rightarrow>
                         s1\<lparr>error := Some (case message e of
                                              None \<Rightarrow> ''Failed to add game''
                                            | Some msg \<Rightarrow> msg)\<rparr>)
           in (w1, s2\<lparr>adding := False\<rparr>)))"

section \<open>Notions the properties are stated with\<close>

text \<open>
  The sum of one category's counts over a list of records, and the running average
  a trend point holds for a category.
\<close>

definition sum_faults :: "FaultKey \<Rightarrow> GameRow list \<Rightarrow> int" where
  "sum_faults key gs = sum_list (map (\<lambda>g. get_fault (rowFaults g) key) gs)"

fun tp_avg :: "TrendPoint \<Rightarrow> FaultKey \<Rightarrow> rat" where
  "tp_avg p Serve = tp_serve p"
| "tp_avg p Return = tp_return p"
| "tp_avg p Net = tp_net p"
| "tp_avg p Long = tp_long p"
| "tp_avg p Setup = tp_setup p"

text \<open>
  The label of a record's trend point, and the precondition of a chronological
  order: every \<^verbatim>\<open>played_at\<close> is a date the engine can read (the column is
  \<^verbatim>\<open>timestamptz not null\<close>).
\<close>

definition label_of :: "js_date \<Rightarrow> GameRow \<Rightarrow> string" where
  "label_of env g = Date_toLocaleDateString env (Date_new env (played_at g))"

definition valid_dates :: "js_date \<Rightarrow> GameRow list \<Rightarrow> bool" where
  "valid_dates env gs = list_all (\<lambda>g. played_time env g \<noteq> None) gs"

text \<open>
  The running totals after a list of records, and the trend point the callback
  builds from given totals and game number.
\<close>

definition add_faults :: "Faults \<Rightarrow> Faults \<Rightarrow> Faults" where
  "add_faults a b = \<lparr>serve = serve a + serve b, return = return a + return b,
     net = net a + net b, long = long a + long b, setup' = setup' a + setup' b\<rparr>"

definition totals_upto :: "Faults \<Rightarrow> GameRow list \<Rightarrow> Faults" where
  "totals_upto t gs = foldl (\<lambda>acc g. add_faults acc (rowFaults g)) t gs"

definition point_of :: "js_date \<Rightarrow> Faults \<Rightarrow> nat \<Rightarrow> GameRow \<Rightarrow> TrendPoint" where
  "point_of env tot n g =
     \<lparr>tp_label = Date_toLocaleDateString env (Date_new env (played_at g)),
      tp_serve = of_int (serve tot) / of_nat n,
      tp_return = of_int (return tot) / of_nat n,
      tp_net = of_int (net tot) / of_nat n,
      tp_long = of_int (long tot) / of_nat n,
      tp_setup = of_int (setup' tot) / of_nat n,
      tp_total = of_int (serve tot + return tot + net tot + long tot + setup' tot) / of_nat n\<rparr>"

text \<open>
  The message \<^verbatim>\<open>e.message ?? fallback\<close> shown for a caught error; the query
  \<^verbatim>\<open>loadGames\<close> sends for a user; the rows of the table a user owns, as selected
  columns; the service after \<^verbatim>\<open>getUser\<close> and an accepted insert.
\<close>

definition message_or :: "string \<Rightarrow> js_error \<Rightarrow> string" where
  "message_or fallback e = (case message e of None \<Rightarrow> fallback | Some msg \<Rightarrow> msg)"

definition recent_query :: "User \<Rightarrow> games_query" where
  "recent_query u = \<lparr>eq_user_id = uid u, order_ascending = False, limit = 25\<rparr>"

definition owned_rows :: "User \<Rightarrow> service \<Rightarrow> GameRow list" where
  "owned_rows u w = map snd (filter (\<lambda>r. fst r = uid u) (games_table w))"

definition after_insert :: "games_insert \<Rightarrow> service \<Rightarrow> service" where
  "after_insert p w =
     w\<lparr>games_table := games_table w @ [stored_row (next_id (games_table w)) p],
       requests := requests w @ [GetUser, Insert p]\<rparr>"

section \<open>Example data\<close>

text \<open>
  An engine in the UTC zone with an English locale, on the few dates the examples use.
\<close>

definition utc_clock :: js_date where
  "utc_clock =
     \<lparr>Date_new = map_of
        [(''2024-05-01'', 1714521600000),
         (''2024-05-08'', 1715126400000),
         (''2024-05-01T10:00:00.000Z'', 1714557600000),
         (''2024-05-03T18:30:00.000Z'', 1714761000000),
         (''2024-05-08T09:15:00.000Z'', 1715159700000)],
      Date_setHours = (\<lambda>d h m.
        case (d, map_of [(''09'', 9), (''10'', 10), (''18'', 18)] h,
                 map_of [(''00'', 0), (''15'', 15), (''30'', 30)] m) of
          (Some t, Some hh, Some mm) \<Rightarrow>
             Some (t - t mod 86400000 + hh * 3600000 + mm * 60000)
        | _ \<Rightarrow> None),
      Date_toISOString = (\<lambda>t.
        case map_of
          [(1714557600000 :: int, ''2024-05-01T10:00:00.000Z''),
           (1714761000000, ''2024-05-03T18:30:00.000Z''),
           (1715159700000, ''2024-05-08T09:15:00.000Z'')] t of
          Some s \<Rightarrow> s
        | None \<Rightarrow> ''1970-01-01T00:00:00.000Z''),
      Date_toLocaleDateString = (\<lambda>d.
        case d of
          None \<Rightarrow> ''Invalid Date''
        | Some t \<Rightarrow>
            (case map_of [(19844 :: int, ''May 1''), (19846, ''May 3''), (19851, ''May 8'')]
                    (t div 86400000) of
               Some s \<Rightarrow> s
             | None \<Rightarrow> ''Jan 1''))\<rparr>"

text \<open>
  A record with the given \<^verbatim>\<open>id\<close>, \<^verbatim>\<open>played_at\<close> and \<^verbatim>\<open>serve_faults\<close>, and
  three short lists: two games as the store returns them (most recent first), two
  games played at the same time, and the three together.
\<close>

definition game_row :: "int \<Rightarrow> string \<Rightarrow> int \<Rightarrow> GameRow" where
  "game_row n played k =
     \<lparr>played_at = played, my_points = 11, opp_points = 8, location = None,
      serve_faults = k, return_faults = 0, into_net = 1, too_long = 0, setup_kill = 0,
      id' = n\<rparr>"

definition two_games :: "GameRow list" where
  "two_games = [game_row 2 ''2024-05-03T18:30:00.000Z'' 4,
                game_row 1 ''2024-05-01T10:00:00.000Z'' 2]"

definition tied_games :: "GameRow list" where
  "tied_games = [game_row 1 ''2024-05-01T10:00:00.000Z'' 2,
                 game_row 2 ''2024-05-01T10:00:00.000Z'' 4]"

definition three_games :: "GameRow list" where
  "three_games = [game_row 3 ''2024-05-03T18:30:00.000Z'' 0,
                  game_row 1 ''2024-05-01T10:00:00.000Z'' 2,
                  game_row 2 ''2024-05-01T10:00:00.000Z'' 4]"

text \<open>
  Two users, a table with rows of two owners, a filled entry form, and two errors
  the service answers with.
\<close>

definition alice :: User where
  "alice = \<lparr>uid = ''alice''\<rparr>"

definition carol :: User where
  "carol = \<lparr>uid = ''carol''\<rparr>"

definition club_service :: "User option \<times> js_error option \<Rightarrow> js_error option \<Rightarrow> service" where
  "club_service sess ins =
     \<lparr>session = sess,
      games_table = [(''alice'', game_row 1 ''2024-05-01T10:00:00.000Z'' 2),
                     (''bob'', game_row 2 ''2024-05-01T10:00:00.000Z'' 4),
                     (''alice'', game_row 3 ''2024-05-03T18:30:00.000Z'' 0)],
      insert_error = ins, select_error = None, requests = []\<rparr>"

definition entry_form :: Dashboard where
  "entry_form =
     (initial ''2024-05-08'' ''09:15'')
       \<lparr>location' := ''  Court 3 '',
        faults := \<lparr>serve = 2, return = 0, net = 1, long = 0, setup' = 0\<rparr>\<rparr>"

definition policy_rejection :: js_error where
  "policy_rejection = Error (Some ''new row violates row-level security policy'')"

definition session_missing :: js_error where
  "session_missing = Error (Some ''Auth session missing!'')"

section \<open>Fault tally: the counters never go below zero\<close>

lemma get_set_fault: "get_fault (set_fault f k v) k' = (if k' = k then v else get_fault f k')"
  by (cases k; cases k') simp_all

lemma changeFault_counter:
  "get_fault (faults (changeFault key delta s)) k =
     (if k = key then max 0 (get_fault (faults s) key + delta) else get_fault (faults s) k)"
  by (simp add: changeFault_def Let_def get_set_fault)

lemma click_keeps_nonneg:
  "(\<And>k. 0 \<le> get_fault (faults s) k) \<Longrightarrow> 0 \<le> get_fault (faults (click a s)) k"
  by (cases a) (simp_all add: changeFault_counter)

lemma clicks_snoc: "clicks (acts @ [a]) s = click a (clicks acts s)"
  by (simp add: clicks_def)

lemma clicks_keep_nonneg:
  "(\<And>k. 0 \<le> get_fault (faults s) k) \<Longrightarrow> 0 \<le> get_fault (faults (clicks acts s)) k"
proof (induction acts arbitrary: k rule: rev_induct)
  case Nil
  then show ?case by (simp add: clicks_def)
next
  case (snoc a acts)
  show ?case unfolding clicks_snoc
    by (rule click_keeps_nonneg) (rule snoc.IH, rule snoc.prems)
qed

lemma initial_counters: "get_fault (faults (initial d t)) k = 0"
  by (cases k) (simp_all add: initial_def no_faults_def)

lemma set_fault_same: "get_fault f k = v \<Longrightarrow> set_fault f k v = f"
  by (cases k) auto

text \<open>
  Claim C2. Start from the tally of a freshly mounted component and press the
  increment and decrement buttons in any order: after every press each of the five
  counters is at least 0. Pressing decrement on a counter that is 0 leaves it 0 (the
  whole state is unchanged); \<open>changeFault\<close> has no failing branch.
\<close>

theorem fault_tally_never_negative:
  "0 \<le> get_fault (faults (clicks (take n acts) (initial d t))) k \<and>
   (get_fault (faults s) k = 0 \<longrightarrow>
      get_fault (faults (click (Decrement k) s)) k = 0 \<and> click (Decrement k) s = s)"
proof -
  have "0 \<le> get_fault (faults (clicks (take n acts) (initial d t))) k"
    by (rule clicks_keep_nonneg) (simp add: initial_counters)
  moreover have "click (Decrement k) s = s" if "get_fault (faults s) k = 0"
    using that by (simp add: changeFault_def Let_def set_fault_same)
  ultimately show ?thesis by simp
qed

theorem fault_tally_never_negative_witness:
  "get_fault (faults (initial ''2024-05-01'' ''10:00'')) Net = 0 \<and>
   click (Decrement Net) (initial ''2024-05-01'' ''10:00'') = initial ''2024-05-01'' ''10:00'' \<and>
   0 \<le> get_fault (faults (clicks (take 2 [Decrement Net, Increment Net, Decrement Serve])
                              (initial ''2024-05-01'' ''10:00''))) Net"
proof -
  have z: "get_fault (faults (initial ''2024-05-01'' ''10:00'')) Net = 0"
    by (rule initial_counters)
  from fault_tally_never_negative[of 2 "[Decrement Net, Increment Net, Decrement Serve]"
      "''2024-05-01''" "''10:00''" Net "initial ''2024-05-01'' ''10:00''"] z
  show ?thesis by blast
qed

section \<open>Fault trend aggregator: running averages\<close>

lemma trend_map_Cons:
  "trend_map env t i (g # gs) =
     point_of env (add_faults t (rowFaults g)) (i + 1) g
       # trend_map env (add_faults t (rowFaults g)) (i + 1) gs"
  by (simp add: Let_def point_of_def add_faults_def)

lemma length_trend_map: "length (trend_map env t i gs) = length gs"
  by (induction gs arbitrary: t i) (simp_all only: trend_map.simps(1) trend_map_Cons list.size)

lemma trend_map_nth:
  "k < length gs \<Longrightarrow>
   trend_map env t i gs ! k = point_of env (totals_upto t (take (Suc k) gs)) (i + k + 1) (gs ! k)"
proof (induction gs arbitrary: t i k)
  case Nil
  then show ?case by simp
next
  case (Cons g gs)
  show ?case
  proof (cases k)
    case 0
    then show ?thesis by (simp only: trend_map_Cons) (simp add: totals_upto_def)
  next
    case (Suc j)
    with Cons.prems have "j < length gs" by simp
    from Cons.IH[OF this, of "add_faults t (rowFaults g)" "i + 1"] Suc
    show ?thesis by (simp only: trend_map_Cons) (simp add: totals_upto_def)
  qed
qed

lemma get_fault_add: "get_fault (add_faults a b) k = get_fault a k + get_fault b k"
  by (cases k) (simp_all add: add_faults_def)

lemma totals_upto_counter:
  "get_fault (totals_upto t gs) key = get_fault t key + sum_faults key gs"
  by (induction gs arbitrary: t) (simp_all add: totals_upto_def sum_faults_def get_fault_add)

lemma tp_avg_point_of: "tp_avg (point_of env tot n g) key = of_int (get_fault tot key) / of_nat n"
  by (cases key) (simp_all add: point_of_def)

lemma tp_total_point_of:
  "tp_total (point_of env tot n g) =
     of_int (get_fault tot Serve + get_fault tot Return + get_fault tot Net
             + get_fault tot Long + get_fault tot Setup) / of_nat n"
  by (simp add: point_of_def)

lemma tp_label_point_of:
  "tp_label (point_of env tot n g) = Date_toLocaleDateString env (Date_new env (played_at g))"
  by (simp add: point_of_def)

lemma length_insert_stable: "length (insert_stable cmp x ys) = Suc (length ys)"
  by (induction ys) simp_all

lemma length_array_sort: "length (array_sort cmp xs) = length xs"
  by (induction xs) (simp_all add: array_sort_def length_insert_stable)

lemma no_faults_counter: "get_fault no_faults key = 0"
  by (cases key) (simp_all add: no_faults_def)

lemma trend_labels: "map tp_label (trend_map env t i gs) = map (label_of env) gs"
  by (induction gs arbitrary: t i)
     (simp_all only: trend_map.simps(1) trend_map_Cons list.map tp_label_point_of label_of_def)

lemma faultTrendData_sorted:
  "faultTrendData env gs = trend_map env no_faults 0 (sorted_games env gs)"
  by (cases gs) (simp_all add: faultTrendData_def sorted_games_def array_sort_def)

lemma SortCompare_valid:
  "played_time env x = Some a \<Longrightarrow> played_time env y = Some b \<Longrightarrow>
   (SortCompare (by_played_at env) x y \<le> 0) = (played_time env x \<le> played_time env y)"
  by (simp add: SortCompare_def by_played_at_def)

lemma insert_stable_insort:
  "played_time env x \<noteq> None \<Longrightarrow> list_all (\<lambda>g. played_time env g \<noteq> None) ys \<Longrightarrow>
   insert_stable (by_played_at env) x ys = insort_key (played_time env) x ys"
proof (induction ys)
  case Nil
  then show ?case by simp
next
  case (Cons y ys)
  from Cons.prems obtain a b where ab: "played_time env x = Some a" "played_time env y = Some b"
    by auto
  from Cons.prems have "list_all (\<lambda>g. played_time env g \<noteq> None) ys" by simp
  with Cons.IH Cons.prems(1) have IH: "insert_stable (by_played_at env) x ys = insort_key (played_time env) x ys"
    by blast
  show ?case
    by (simp only: insert_stable.simps insort_key.simps SortCompare_valid[OF ab] IH)
qed

lemma array_sort_sort_key:
  "valid_dates env gs \<Longrightarrow> sorted_games env gs = sort_key (played_time env) gs"
proof (induction gs)
  case Nil
  then show ?case by (simp add: sorted_games_def array_sort_def)
next
  case (Cons g gs)
  from Cons.prems have v: "valid_dates env gs" and g: "played_time env g \<noteq> None"
    by (simp_all add: valid_dates_def)
  have IH: "array_sort (by_played_at env) gs = sort_key (played_time env) gs"
    using Cons.IH[OF v] by (simp add: sorted_games_def)
  have "list_all (\<lambda>g. played_time env g \<noteq> None) (sort_key (played_time env) gs)"
    using v by (simp add: valid_dates_def list_all_iff)
  from insert_stable_insort[OF g this] IH
  show ?case by (simp add: sorted_games_def array_sort_def sort_key_def)
qed

lemma utc_new [simp]:
  "Date_new utc_clock ''2024-05-01T10:00:00.000Z'' = Some 1714557600000"
  "Date_new utc_clock ''2024-05-03T18:30:00.000Z'' = Some 1714761000000"
  by (simp_all add: utc_clock_def)

lemma played_time_game_row [simp]:
  "played_time utc_clock (game_row n ''2024-05-01T10:00:00.000Z'' k) = Some 1714557600000"
  "played_time utc_clock (game_row n ''2024-05-03T18:30:00.000Z'' k) = Some 1714761000000"
  by (simp_all add: played_time_def game_row_def)

lemma label_game_row [simp]:
  "label_of utc_clock (game_row n ''2024-05-01T10:00:00.000Z'' k) = ''May 1''"
  "label_of utc_clock (game_row n ''2024-05-03T18:30:00.000Z'' k) = ''May 3''"
  by (simp_all add: label_of_def game_row_def) (simp_all add: utc_clock_def)

lemma by_played_at_game_row [simp]:
  "SortCompare (by_played_at utc_clock) (game_row n ''2024-05-01T10:00:00.000Z'' k)
      (game_row n' ''2024-05-01T10:00:00.000Z'' k') = 0"
  "SortCompare (by_played_at utc_clock) (game_row n ''2024-05-03T18:30:00.000Z'' k)
      (game_row n' ''2024-05-01T10:00:00.000Z'' k') = 203400000"
  "SortCompare (by_played_at utc_clock) (game_row n ''2024-05-01T10:00:00.000Z'' k)
      (game_row n' ''2024-05-03T18:30:00.000Z'' k') = - 203400000"
  by (simp_all add: SortCompare_def by_played_at_def)

lemma sorted_two_games:
  "sorted_games utc_clock two_games =
     [game_row 1 ''2024-05-01T10:00:00.000Z'' 2, game_row 2 ''2024-05-03T18:30:00.000Z'' 4]"
  by (simp add: sorted_games_def array_sort_def two_games_def SortCompare_def by_played_at_def
      played_time_def game_row_def)

lemma sorted_three_games:
  "sorted_games utc_clock three_games =
     [game_row 1 ''2024-05-01T10:00:00.000Z'' 2, game_row 2 ''2024-05-01T10:00:00.000Z'' 4,
      game_row 3 ''2024-05-03T18:30:00.000Z'' 0]"
  by (simp add: sorted_games_def array_sort_def three_games_def)

lemma sort_key_two_games:
  "sort_key (played_time utc_clock) two_games =
     [game_row 1 ''2024-05-01T10:00:00.000Z'' 2, game_row 2 ''2024-05-03T18:30:00.000Z'' 4]"
proof -
  have "valid_dates utc_clock two_games" by (simp add: valid_dates_def two_games_def)
  from array_sort_sort_key[OF this] show ?thesis by (simp only: sorted_two_games)
qed

lemma sum_faults_game_row:
  "sum_faults key (game_row n p k # gs) =
     (case key of Serve \<Rightarrow> k | Net \<Rightarrow> 1 | _ \<Rightarrow> 0) + sum_faults key gs"
  "sum_faults key [] = 0"
  by (cases key; simp add: sum_faults_def rowFaults_def game_row_def)+

text \<open>
  Claim C1. For a non-empty list of records with readable dates the aggregator emits
  one trend point per record. The sequence it runs over is the stable chronological
  sort of the input (\<open>sort_key\<close> by time: a permutation of the input, ascending in
  time, records of one time in input order), and at every 1-based position \<open>k\<close> of that sequence the running average of
  each category is the sum of that category's counts over its first \<open>k\<close> records
  divided by \<open>k\<close>, and the total average is the sum of the five running sums divided
  by \<open>k\<close>.
\<close>

theorem running_average:
  assumes "valid_dates env gs" and "gs \<noteq> []" and "1 \<le> k" and "k \<le> length gs"
  shows "length (faultTrendData env gs) = length gs \<and>
         sorted_games env gs = sort_key (played_time env) gs \<and>
         mset (sort_key (played_time env) gs) = mset gs \<and>
         sorted (map (played_time env) (sort_key (played_time env) gs)) \<and>
         filter (\<lambda>g. played_time env g = t) (sort_key (played_time env) gs)
           = filter (\<lambda>g. played_time env g = t) gs \<and>
         tp_avg (faultTrendData env gs ! (k - 1)) key =
           of_int (sum_faults key (take k (sort_key (played_time env) gs))) / of_nat k \<and>
         tp_total (faultTrendData env gs ! (k - 1)) =
           of_int (sum_faults Serve (take k (sort_key (played_time env) gs))
                   + sum_faults Return (take k (sort_key (played_time env) gs))
                   + sum_faults Net (take k (sort_key (played_time env) gs))
                   + sum_faults Long (take k (sort_key (played_time env) gs))
                   + sum_faults Setup (take k (sort_key (played_time env) gs))) / of_nat k"
proof -
  let ?ys = "sort_key (played_time env) gs"
  have srt: "sorted_games env gs = ?ys" by (rule array_sort_sort_key[OF assms(1)])
  have len: "length ?ys = length gs" by simp
  have eq: "faultTrendData env gs = trend_map env no_faults 0 ?ys"
    by (simp only: faultTrendData_sorted srt)
  from assms have kk: "k - 1 < length ?ys" and sk: "Suc (k - 1) = k" by simp_all
  have nth: "faultTrendData env gs ! (k - 1) =
      point_of env (totals_upto no_faults (take k ?ys)) k (?ys ! (k - 1))"
    unfolding eq using trend_map_nth[OF kk, of env no_faults 0] sk by simp
  have "length (faultTrendData env gs) = length gs"
    by (simp only: eq length_trend_map len)
  moreover have "tp_avg (faultTrendData env gs ! (k - 1)) key =
      of_int (sum_faults key (take k ?ys)) / of_nat k"
    by (simp only: nth tp_avg_point_of totals_upto_counter no_faults_counter) simp
  moreover have "tp_total (faultTrendData env gs ! (k - 1)) =
      of_int (sum_faults Serve (take k ?ys) + sum_faults Return (take k ?ys)
              + sum_faults Net (take k ?ys) + sum_faults Long (take k ?ys)
              + sum_faults Setup (take k ?ys)) / of_nat k"
    by (simp only: nth tp_total_point_of totals_upto_counter no_faults_counter) simp
  moreover have "mset ?ys = mset gs" by simp
  moreover have "sorted (map (played_time env) ?ys)" by simp
  moreover have "filter (\<lambda>g. played_time env g = t) ?ys
      = filter (\<lambda>g. played_time env g = t) gs"
    by (rule sort_key_stable)
  ultimately show ?thesis using srt by blast
qed

theorem running_average_witness:
  "valid_dates utc_clock two_games \<and> two_games \<noteq> [] \<and> 2 \<le> length two_games \<and>
   map (\<lambda>g. serve_faults g) two_games = [4, 2] \<and>
   map (\<lambda>g. serve_faults g) (sorted_games utc_clock two_games) = [2, 4] \<and>
   length (faultTrendData utc_clock two_games) = length two_games \<and>
   tp_avg (faultTrendData utc_clock two_games ! 0) Serve = 2 \<and>
   tp_total (faultTrendData utc_clock two_games ! 0) = 3 \<and>
   tp_avg (faultTrendData utc_clock two_games ! 1) Serve = 3 \<and>
   tp_total (faultTrendData utc_clock two_games ! 1) = 4"
proof -
  have v: "valid_dates utc_clock two_games"
    by (simp add: valid_dates_def two_games_def)
  have h: "two_games \<noteq> []" "(1::nat) \<le> 1" "(1::nat) \<le> length two_games"
    "(1::nat) \<le> 2" "2 \<le> length two_games"
    by (simp_all add: two_games_def)
  note first = running_average[OF v h(1) h(2) h(3), where key = Serve and t = None]
  note second = running_average[OF v h(1) h(4) h(5), where key = Serve and t = None]
  have in_order: "map (\<lambda>g. serve_faults g) two_games = [4, 2]"
    by (simp add: two_games_def game_row_def)
  have out_order: "map (\<lambda>g. serve_faults g) (sorted_games utc_clock two_games) = [2, 4]"
    by (simp add: sorted_two_games game_row_def)
  from first have l: "length (faultTrendData utc_clock two_games) = length two_games"
    by (elim conjE)
  from first have "tp_avg (faultTrendData utc_clock two_games ! (1 - 1)) Serve =
      of_int (sum_faults Serve (take 1 (sort_key (played_time utc_clock) two_games))) / of_nat 1"
    by (elim conjE)
  then have f1: "tp_avg (faultTrendData utc_clock two_games ! 0) Serve = 2"
    by (simp add: sort_key_two_games sum_faults_game_row)
  from first have "tp_total (faultTrendData utc_clock two_games ! (1 - 1)) =
      of_int (sum_faults Serve (take 1 (sort_key (played_time utc_clock) two_games))
              + sum_faults Return (take 1 (sort_key (played_time utc_clock) two_games))
              + sum_faults Net (take 1 (sort_key (played_time utc_clock) two_games))
              + sum_faults Long (take 1 (sort_key (played_time utc_clock) two_games))
              + sum_faults Setup (take 1 (sort_key (played_time utc_clock) two_games)))
        / of_nat 1"
    by (elim conjE)
  then have f2: "tp_total (faultTrendData utc_clock two_games ! 0) = 3"
    by (simp add: sort_key_two_games sum_faults_game_row)
  from second have "tp_avg (faultTrendData utc_clock two_games ! (2 - 1)) Serve =
      of_int (sum_faults Serve (take 2 (sort_key (played_time utc_clock) two_games))) / of_nat 2"
    by (elim conjE)
  then have s1: "tp_avg (faultTrendData utc_clock two_games ! 1) Serve = 3"
    by (simp add: sort_key_two_games sum_faults_game_row)
  from second have "tp_total (faultTrendData utc_clock two_games ! (2 - 1)) =
      of_int (sum_faults Serve (take 2 (sort_key (played_time utc_clock) two_games))
              + sum_faults Return (take 2 (sort_key (played_time utc_clock) two_games))
              + sum_faults Net (take 2 (sort_key (played_time utc_clock) two_games))
              + sum_faults Long (take 2 (sort_key (played_time utc_clock) two_games))
              + sum_faults Setup (take 2 (sort_key (played_time utc_clock) two_games)))
        / of_nat 2"
    by (elim conjE)
  then have s2: "tp_total (faultTrendData utc_clock two_games ! 1) = 4"
    by (simp add: sort_key_two_games sum_faults_game_row)
  from v h(1) h(5) in_order out_order l f1 f2 s1 s2 show ?thesis by blast
qed

text \<open>
  Claim C8. No record gives no trend point. One record gives one trend point whose
  five averages are the record's own counts and whose total is their sum.
\<close>

theorem empty_and_single_record:
  "faultTrendData env [] = [] \<and>
   faultTrendData env [g] =
     [\<lparr>tp_label = label_of env g,
       tp_serve = of_int (serve_faults g),
       tp_return = of_int (return_faults g),
       tp_net = of_int (into_net g),
       tp_long = of_int (too_long g),
       tp_setup = of_int (setup_kill g),
       tp_total = of_int (serve_faults g + return_faults g + into_net g + too_long g
                          + setup_kill g)\<rparr>]"
  by (simp add: faultTrendData_def sorted_games_def array_sort_def Let_def rowFaults_def
      no_faults_def label_of_def)

theorem empty_and_single_record_witness:
  "faultTrendData utc_clock [] = [] \<and>
   faultTrendData utc_clock [game_row 1 ''2024-05-01T10:00:00.000Z'' 2] =
     [\<lparr>tp_label = ''May 1'', tp_serve = 2, tp_return = 0, tp_net = 1, tp_long = 0,
       tp_setup = 0, tp_total = 3\<rparr>]"
  using empty_and_single_record[of utc_clock "game_row 1 ''2024-05-01T10:00:00.000Z'' 2"]
  by simp (simp add: game_row_def)

section \<open>Fault trend aggregator: the order of the output\<close>

lemma valid_dates_mset: "mset xs = mset ys \<Longrightarrow> valid_dates env xs = valid_dates env ys"
  by (simp add: valid_dates_def list_all_iff) (metis mset_eq_setD)

lemma sort_key_same_ties:
  fixes f :: "'a \<Rightarrow> 'k::linorder"
  assumes "mset xs = mset ys"
    and "\<And>t. filter (\<lambda>g. f g = t) xs = filter (\<lambda>g. f g = t) ys"
  shows "sort_key f xs = sort_key f ys"
proof (rule properties_for_sort_key)
  show "mset (sort_key f ys) = mset xs" using assms(1) by simp
  show "sorted (map f (sort_key f ys))" by simp
  fix k
  have "filter (\<lambda>x. f k = f x) (sort_key f ys) = filter (\<lambda>x. f x = f k) (sort_key f ys)"
    by (rule filter_cong) auto
  also have "\<dots> = filter (\<lambda>x. f x = f k) ys" by (rule sort_key_stable)
  also have "\<dots> = filter (\<lambda>x. f x = f k) xs" by (simp only: assms(2))
  also have "\<dots> = filter (\<lambda>x. f k = f x) xs" by (rule filter_cong) auto
  finally show "filter (\<lambda>x. f k = f x) (sort_key f ys) = filter (\<lambda>x. f k = f x) xs" .
qed

text \<open>
  Claim C5. The records are sorted ascending by the time of \<^verbatim>\<open>played_at\<close>, and
  the sort is stable: the sorted list is a permutation of the input, its times
  ascend, and the records of any one time stand in their input order. The trend points
  follow the sorted list, one per record, each labelled with its record's date.
\<close>

theorem stable_chronological_order:
  assumes "valid_dates env gs"
  shows "mset (sorted_games env gs) = mset gs \<and>
         sorted (map (played_time env) (sorted_games env gs)) \<and>
         filter (\<lambda>g. played_time env g = t) (sorted_games env gs)
           = filter (\<lambda>g. played_time env g = t) gs \<and>
         faultTrendData env gs = trend_map env no_faults 0 (sorted_games env gs) \<and>
         map tp_label (faultTrendData env gs) = map (label_of env) (sorted_games env gs)"
proof -
  note eq = array_sort_sort_key[OF assms]
  have "mset (sorted_games env gs) = mset gs" by (simp add: eq)
  moreover have "sorted (map (played_time env) (sorted_games env gs))" by (simp add: eq)
  moreover have "filter (\<lambda>g. played_time env g = t) (sorted_games env gs)
           = filter (\<lambda>g. played_time env g = t) gs"
    by (simp only: eq sort_key_stable)
  moreover have "map tp_label (faultTrendData env gs) = map (label_of env) (sorted_games env gs)"
    by (simp only: faultTrendData_sorted trend_labels)
  ultimately show ?thesis using faultTrendData_sorted by blast
qed

theorem stable_chronological_order_witness:
  "valid_dates utc_clock three_games \<and>
   sorted_games utc_clock three_games =
     [game_row 1 ''2024-05-01T10:00:00.000Z'' 2, game_row 2 ''2024-05-01T10:00:00.000Z'' 4,
      game_row 3 ''2024-05-03T18:30:00.000Z'' 0] \<and>
   filter (\<lambda>g. played_time utc_clock g = Some 1714557600000) (sorted_games utc_clock three_games)
     = [game_row 1 ''2024-05-01T10:00:00.000Z'' 2, game_row 2 ''2024-05-01T10:00:00.000Z'' 4] \<and>
   map tp_label (faultTrendData utc_clock three_games) = [''May 1'', ''May 1'', ''May 3'']"
proof -
  have v: "valid_dates utc_clock three_games"
    by (simp add: valid_dates_def three_games_def)
  note c = stable_chronological_order[OF v, of "Some 1714557600000"]
  from c have "filter (\<lambda>g. played_time utc_clock g = Some 1714557600000)
        (sorted_games utc_clock three_games)
      = filter (\<lambda>g. played_time utc_clock g = Some 1714557600000) three_games"
    by (elim conjE)
  then have f: "filter (\<lambda>g. played_time utc_clock g = Some 1714557600000)
        (sorted_games utc_clock three_games)
      = [game_row 1 ''2024-05-01T10:00:00.000Z'' 2, game_row 2 ''2024-05-01T10:00:00.000Z'' 4]"
    by (simp add: three_games_def)
  from c have "map tp_label (faultTrendData utc_clock three_games)
      = map (label_of utc_clock) (sorted_games utc_clock three_games)"
    by (elim conjE)
  then have l: "map tp_label (faultTrendData utc_clock three_games)
      = [''May 1'', ''May 1'', ''May 3'']"
    by (simp add: sorted_three_games)
  from v f l sorted_three_games show ?thesis by blast
qed

text \<open>
  Claim C7, as stated: any two lists that are permutations of each other give the same
  output. Two records played at the same time with different counts refute it: the
  stable sort keeps them in input order, and the running averages after the first of
  them differ.
\<close>

theorem permuted_ties_counterexample:
  "valid_dates utc_clock tied_games \<and>
   mset tied_games = mset (rev tied_games) \<and>
   faultTrendData utc_clock tied_games \<noteq> faultTrendData utc_clock (rev tied_games)"
  by (simp add: valid_dates_def tied_games_def faultTrendData_def sorted_games_def
      array_sort_def Let_def rowFaults_def no_faults_def)
     (simp add: game_row_def)

text \<open>
  Claim C7, amended. Two lists that are permutations of each other and hold the
  records of every single time in the same order (so in particular when no two
  records share a time) give the same output, and the output follows the ascending
  order of \<^verbatim>\<open>played_at\<close>.
\<close>

theorem same_output_when_ties_agree:
  assumes "valid_dates env xs"
    and "mset xs = mset ys"
    and "\<And>t. filter (\<lambda>g. played_time env g = t) xs = filter (\<lambda>g. played_time env g = t) ys"
  shows "faultTrendData env xs = faultTrendData env ys \<and>
         faultTrendData env xs = trend_map env no_faults 0 (sorted_games env xs) \<and>
         sorted (map (played_time env) (sorted_games env xs))"
proof -
  have vy: "valid_dates env ys" using assms(1,2) valid_dates_mset by blast
  have "sorted_games env xs = sorted_games env ys"
    by (simp only: array_sort_sort_key[OF assms(1)] array_sort_sort_key[OF vy]
        sort_key_same_ties[OF assms(2,3)])
  then have "faultTrendData env xs = faultTrendData env ys"
    by (simp only: faultTrendData_sorted)
  moreover have "sorted (map (played_time env) (sorted_games env xs))"
    by (simp add: array_sort_sort_key[OF assms(1)])
  ultimately show ?thesis using faultTrendData_sorted by blast
qed

theorem same_output_when_ties_agree_witness:
  "valid_dates utc_clock two_games \<and>
   mset two_games = mset (rev two_games) \<and>
   two_games \<noteq> rev two_games \<and>
   faultTrendData utc_clock two_games = faultTrendData utc_clock (rev two_games) \<and>
   sorted (map (played_time utc_clock) (sorted_games utc_clock two_games))"
proof -
  have v: "valid_dates utc_clock two_games"
    by (simp add: valid_dates_def two_games_def)
  have m: "mset two_games = mset (rev two_games)" by simp
  have t: "filter (\<lambda>g. played_time utc_clock g = t) two_games
         = filter (\<lambda>g. played_time utc_clock g = t) (rev two_games)" for t
    by (auto simp: two_games_def)
  have d: "two_games \<noteq> rev two_games"
    by (simp add: two_games_def game_row_def)
  from same_output_when_ties_agree[OF v m t] v d show ?thesis by simp
qed

section \<open>Game entry and recent games\<close>

lemma trim_ends:
  "trim s \<noteq> [] \<Longrightarrow> \<not> is_white_space (hd (trim s)) \<and> \<not> is_white_space (last (trim s))"
proof -
  assume ne: "trim s \<noteq> []"
  let ?a = "dropWhile is_white_space s"
  let ?b = "dropWhile is_white_space (rev ?a)"
  have t: "trim s = rev ?b" by (simp add: trim_def)
  with ne have b: "?b \<noteq> []" by simp
  then have "\<not> is_white_space (hd ?b)" by (rule hd_dropWhile)
  then have l: "\<not> is_white_space (last (trim s))" using b by (simp add: t last_rev)
  have a: "?a \<noteq> []"
  proof
    assume "?a = []"
    then have "?b = []" by (simp only: rev.simps(1) dropWhile.simps(1))
    with b show False by blast
  qed
  then have ha: "\<not> is_white_space (hd ?a)" by (rule hd_dropWhile)
  obtain pre where "rev ?a = pre @ ?b"
    by (metis takeWhile_dropWhile_id)
  with b have "last ?b = last (rev ?a)" by (metis last_appendR)
  also have "\<dots> = hd ?a" using a by (simp add: last_rev)
  finally have "hd (trim s) = hd ?a" using b by (simp add: t hd_rev)
  with ha l show ?thesis by simp
qed

lemma trim_inside:
  "\<exists>pre post. s = pre @ trim s @ post \<and> list_all is_white_space pre \<and> list_all is_white_space post"
proof -
  let ?a = "dropWhile is_white_space s"
  let ?b = "dropWhile is_white_space (rev ?a)"
  let ?pre = "takeWhile is_white_space s"
  let ?post = "rev (takeWhile is_white_space (rev ?a))"
  have "rev ?a = rev ?post @ ?b" by simp
  then have "?a = rev ?b @ ?post" by (metis rev_append rev_rev_ident)
  then have "s = ?pre @ trim s @ ?post"
    by (metis takeWhile_dropWhile_id trim_def)
  moreover have "list_all is_white_space ?pre"
    by (simp add: list_all_iff) (meson set_takeWhileD)
  moreover have "list_all is_white_space ?post"
    by (simp add: list_all_iff) (meson set_takeWhileD)
  ultimately show ?thesis by blast
qed

lemma loadGames_signed_in:
  assumes "session w = (Some u, None)" and "select_error w = None"
  shows "loadGames env w s =
     (w\<lparr>requests := requests w @ [GetUser, Select (recent_query u)]\<rparr>,
      s\<lparr>loadingGames := False, error := None,
        games := take 25 (rev (sort_key (played_time env) (owned_rows u w)))\<rparr>)"
  using assms
  by (simp add: loadGames_def loadGames_try_def getUser_def select_games_def Let_def
      recent_query_def owned_rows_def)

lemma loadGames_frame:
  "date (snd (loadGames env w s)) = date s \<and>
   time (snd (loadGames env w s)) = time s \<and>
   myPoints (snd (loadGames env w s)) = myPoints s \<and>
   oppPoints (snd (loadGames env w s)) = oppPoints s \<and>
   location' (snd (loadGames env w s)) = location' s \<and>
   faults (snd (loadGames env w s)) = faults s \<and>
   editingFault (snd (loadGames env w s)) = editingFault s \<and>
   adding (snd (loadGames env w s)) = adding s"
  by (auto simp: loadGames_def loadGames_try_def getUser_def select_games_def Let_def
      split: option.splits prod.splits)

lemma loadGames_table: "games_table (fst (loadGames env w s)) = games_table w"
  by (auto simp: loadGames_def loadGames_try_def getUser_def select_games_def Let_def
      split: option.splits prod.splits)

lemma loadGames_requests:
  assumes "session w = (Some u, None)"
  shows "requests (fst (loadGames env w s)) = requests w @ [GetUser, Select (recent_query u)]"
  using assms
  by (auto simp: loadGames_def loadGames_try_def getUser_def select_games_def Let_def
      recent_query_def split: option.splits prod.splits)

lemma payload_form:
  "payload u played (s\<lparr>error := e, adding := a\<rparr>) = payload u played s"
  by (simp add: payload_def)

lemma after_insert_simps:
  "session (after_insert p w) = session w"
  "select_error (after_insert p w) = select_error w"
  "requests (after_insert p w) = requests w @ [GetUser, Insert p]"
  "games_table (after_insert p w) = games_table w @ [stored_row (next_id (games_table w)) p]"
  by (simp_all add: after_insert_def)

lemma addGame_signed_out:
  assumes "fst (session w) = None"
  shows "addGame env w s =
     (w\<lparr>requests := requests w @ [GetUser]\<rparr>,
      s\<lparr>error := Some (case snd (session w) of
                          None \<Rightarrow> ''Not signed in''
                        | Some e \<Rightarrow> message_or ''Failed to add game'' e),
        adding := False\<rparr>)"
  using assms
  by (cases "session w")
     (auto simp: addGame_def addGame_try_def getUser_def message_or_def split: option.splits)

lemma addGame_rejected:
  assumes "session w = (Some u, None)"
    and "toPlayedAt env (date s) (time s) = Inr played"
    and "insert_error w = Some e"
  shows "addGame env w s =
     (w\<lparr>requests := requests w @ [GetUser, Insert (payload u played s)]\<rparr>,
      s\<lparr>error := Some (message_or ''Failed to add game'' e), adding := False\<rparr>)"
  using assms
  by (simp add: addGame_def addGame_try_def getUser_def insert_games_def message_or_def
      payload_form)

lemma addGame_accepted:
  assumes "session w = (Some u, None)"
    and "toPlayedAt env (date s) (time s) = Inr played"
    and "insert_error w = None"
  shows "addGame env w s =
     (case loadGames env (after_insert (payload u played s) w)
             (s\<lparr>error := None, adding := True, faults := no_faults\<rparr>) of
        (w3, s3) \<Rightarrow> (w3, s3\<lparr>adding := False\<rparr>))"
  using assms
  by (simp add: addGame_def addGame_try_def getUser_def insert_games_def after_insert_def
      payload_form split: prod.splits)

lemma accepted_state:
  assumes "session w = (Some u, None)"
    and "toPlayedAt env (date s) (time s) = Inr played"
    and "insert_error w = None"
  shows "snd (addGame env w s) =
           (snd (loadGames env (after_insert (payload u played s) w)
                   (s\<lparr>error := None, adding := True, faults := no_faults\<rparr>)))\<lparr>adding := False\<rparr>"
    and "fst (addGame env w s) =
           fst (loadGames env (after_insert (payload u played s) w)
                   (s\<lparr>error := None, adding := True, faults := no_faults\<rparr>))"
  by (simp_all add: addGame_accepted[OF assms] split: prod.splits)

lemma club_service_simps [simp]:
  "session (club_service sess ins) = sess"
  "insert_error (club_service sess ins) = ins"
  "select_error (club_service sess ins) = None"
  "requests (club_service sess ins) = []"
  by (simp_all add: club_service_def)

lemma entry_form_played:
  "toPlayedAt utc_clock (date entry_form) (time entry_form) = Inr ''2024-05-08T09:15:00.000Z''"
  by (simp add: entry_form_def initial_def toPlayedAt_def utc_clock_def)

lemma trim_court: "trim ''  Court 3 '' = ''Court 3''"
  by (simp add: trim_def is_white_space_def)

text \<open>
  Claim C3. A submission that reaches the store (the caller is signed in and the
  date is valid): if the store rejects the write, \<^verbatim>\<open>addGame\<close> shows the store's
  message (its own text when the error has none), leaves the tally and the table as
  they were and asks for no refresh; if the store accepts it, the tally is reset to
  all zeros and \<^verbatim>\<open>loadGames\<close> runs on the table with the new row, so the requests
  of the call are \<^verbatim>\<open>getUser\<close>, the insert, \<^verbatim>\<open>getUser\<close> and the query.
\<close>

theorem persistence_failure_keeps_tally:
  assumes "session w = (Some u, None)"
    and "toPlayedAt env (date s) (time s) = Inr played"
  shows "(insert_error w = Some e \<longrightarrow>
            error (snd (addGame env w s)) = Some (message_or ''Failed to add game'' e) \<and>
            faults (snd (addGame env w s)) = faults s \<and>
            games_table (fst (addGame env w s)) = games_table w \<and>
            requests (fst (addGame env w s))
              = requests w @ [GetUser, Insert (payload u played s)]) \<and>
         (insert_error w = None \<longrightarrow>
            faults (snd (addGame env w s)) = no_faults \<and>
            addGame env w s =
              (case loadGames env (after_insert (payload u played s) w)
                      (s\<lparr>error := None, adding := True, faults := no_faults\<rparr>) of
                 (w3, s3) \<Rightarrow> (w3, s3\<lparr>adding := False\<rparr>)) \<and>
            requests (fst (addGame env w s))
              = requests w @ [GetUser, Insert (payload u played s),
                              GetUser, Select (recent_query u)])"
proof (intro conjI impI)
  assume r: "insert_error w = Some e"
  note eq = addGame_rejected[OF assms r]
  show "error (snd (addGame env w s)) = Some (message_or ''Failed to add game'' e)"
    by (simp add: eq)
  show "faults (snd (addGame env w s)) = faults s" by (simp add: eq)
  show "games_table (fst (addGame env w s)) = games_table w" by (simp add: eq)
  show "requests (fst (addGame env w s)) = requests w @ [GetUser, Insert (payload u played s)]"
    by (simp add: eq)
next
  assume a: "insert_error w = None"
  show "addGame env w s =
      (case loadGames env (after_insert (payload u played s) w)
              (s\<lparr>error := None, adding := True, faults := no_faults\<rparr>) of
         (w3, s3) \<Rightarrow> (w3, s3\<lparr>adding := False\<rparr>))"
    by (rule addGame_accepted[OF assms a])
  show "faults (snd (addGame env w s)) = no_faults"
    by (simp add: accepted_state(1)[OF assms a] loadGames_frame)
  have "session (after_insert (payload u played s) w) = (Some u, None)"
    by (simp add: after_insert_simps assms(1))
  from loadGames_requests[OF this]
  show "requests (fst (addGame env w s))
      = requests w @ [GetUser, Insert (payload u played s), GetUser, Select (recent_query u)]"
    by (simp add: accepted_state(2)[OF assms a] after_insert_simps)
qed

theorem persistence_failure_keeps_tally_witness:
  "session (club_service (Some alice, None) (Some policy_rejection)) = (Some alice, None) \<and>
   toPlayedAt utc_clock (date entry_form) (time entry_form) = Inr ''2024-05-08T09:15:00.000Z'' \<and>
   error (snd (addGame utc_clock (club_service (Some alice, None) (Some policy_rejection))
                 entry_form))
     = Some ''new row violates row-level security policy'' \<and>
   faults (snd (addGame utc_clock (club_service (Some alice, None) (Some policy_rejection))
                  entry_form))
     = \<lparr>serve = 2, return = 0, net = 1, long = 0, setup' = 0\<rparr> \<and>
   faults (snd (addGame utc_clock (club_service (Some alice, None) None) entry_form))
     = no_faults \<and>
   requests (fst (addGame utc_clock (club_service (Some alice, None) None) entry_form))
     = [GetUser, Insert (payload alice ''2024-05-08T09:15:00.000Z'' entry_form),
        GetUser, Select (recent_query alice)]"
proof -
  have s: "session (club_service (Some alice, None) ins) = (Some alice, None)" for ins
    by simp
  note rejected = persistence_failure_keeps_tally[OF s entry_form_played,
      of "Some policy_rejection" policy_rejection]
  note accepted = persistence_failure_keeps_tally[OF s entry_form_played, of None policy_rejection]
  have f: "faults entry_form = \<lparr>serve = 2, return = 0, net = 1, long = 0, setup' = 0\<rparr>"
    by (simp add: entry_form_def)
  have m: "message_or ''Failed to add game'' policy_rejection
      = ''new row violates row-level security policy''"
    by (simp add: message_or_def policy_rejection_def)
  have i: "insert_error (club_service (Some alice, None) None) = None" by simp
  from rejected have r1: "error (snd (addGame utc_clock
        (club_service (Some alice, None) (Some policy_rejection)) entry_form))
      = Some ''new row violates row-level security policy''"
    and r2: "faults (snd (addGame utc_clock
        (club_service (Some alice, None) (Some policy_rejection)) entry_form))
      = \<lparr>serve = 2, return = 0, net = 1, long = 0, setup' = 0\<rparr>"
    by (simp_all add: f m)
  from accepted i have a1: "faults (snd (addGame utc_clock
        (club_service (Some alice, None) None) entry_form)) = no_faults"
    by blast
  from accepted i have "requests (fst (addGame utc_clock
        (club_service (Some alice, None) None) entry_form))
      = requests (club_service (Some alice, None) None)
          @ [GetUser, Insert (payload alice ''2024-05-08T09:15:00.000Z'' entry_form),
             GetUser, Select (recent_query alice)]"
    by blast
  then have a2: "requests (fst (addGame utc_clock
        (club_service (Some alice, None) None) entry_form))
      = [GetUser, Insert (payload alice ''2024-05-08T09:15:00.000Z'' entry_form),
         GetUser, Select (recent_query alice)]"
    by simp
  from s entry_form_played r1 r2 a1 a2 show ?thesis by blast
qed

text \<open>
  Claim C4. \<^verbatim>\<open>addGame\<close> asks the service for the user when it is called; the
  component state holds no identity. When the answer has no user, the \<^verbatim>\<open>try\<close>
  block throws (the service's error, or \<^verbatim>\<open>Error("Not signed in")\<close>), the message is
  shown, and the only request made is \<^verbatim>\<open>getUser\<close>: no insert, the table is
  unchanged. The witness loads the games while signed in, lets the session expire,
  and submits.
\<close>

theorem unauthenticated_submission_writes_nothing:
  assumes "fst (session w) = None"
  shows "snd (snd (addGame_try env w (s\<lparr>error := None, adding := True\<rparr>)))
           = Some (case snd (session w) of
                     None \<Rightarrow> Error (Some ''Not signed in'')
                   | Some e \<Rightarrow> e) \<and>
         error (snd (addGame env w s))
           = Some (case snd (session w) of
                     None \<Rightarrow> ''Not signed in''
                   | Some e \<Rightarrow> message_or ''Failed to add game'' e) \<and>
         games_table (fst (addGame env w s)) = games_table w \<and>
         requests (fst (addGame env w s)) = requests w @ [GetUser] \<and>
         faults (snd (addGame env w s)) = faults s"
proof -
  have "snd (snd (addGame_try env w (s\<lparr>error := None, adding := True\<rparr>)))
           = Some (case snd (session w) of
                     None \<Rightarrow> Error (Some ''Not signed in'')
                   | Some e \<Rightarrow> e)"
    using assms
    by (cases "session w") (auto simp: addGame_try_def getUser_def split: option.splits)
  then show ?thesis by (simp add: addGame_signed_out[OF assms])
qed

theorem unauthenticated_submission_writes_nothing_witness:
  "games (snd (loadGames utc_clock (club_service (Some alice, None) None) entry_form)) \<noteq> [] \<and>
   fst (session ((fst (loadGames utc_clock (club_service (Some alice, None) None) entry_form))
                   \<lparr>session := (None, Some session_missing)\<rparr>)) = None \<and>
   error (snd (addGame utc_clock
                 ((fst (loadGames utc_clock (club_service (Some alice, None) None) entry_form))
                    \<lparr>session := (None, Some session_missing)\<rparr>)
                 (snd (loadGames utc_clock (club_service (Some alice, None) None) entry_form))))
     = Some ''Auth session missing!'' \<and>
   requests (fst (addGame utc_clock
                 ((fst (loadGames utc_clock (club_service (Some alice, None) None) entry_form))
                    \<lparr>session := (None, Some session_missing)\<rparr>)
                 (snd (loadGames utc_clock (club_service (Some alice, None) None) entry_form))))
     = [GetUser, Select (recent_query alice), GetUser] \<and>
   error (snd (addGame utc_clock (club_service (None, None) None) entry_form))
     = Some ''Not signed in'' \<and>
   games_table (fst (addGame utc_clock (club_service (None, None) None) entry_form))
     = games_table (club_service (None, None) None)"
proof -
  let ?w0 = "club_service (Some alice, None) None"
  let ?w1 = "(fst (loadGames utc_clock ?w0 entry_form))\<lparr>session := (None, Some session_missing)\<rparr>"
  let ?s1 = "snd (loadGames utc_clock ?w0 entry_form)"
  have load: "loadGames utc_clock ?w0 entry_form =
      (?w0\<lparr>requests := [GetUser, Select (recent_query alice)]\<rparr>,
       entry_form\<lparr>loadingGames := False, error := None,
         games := take 25 (rev (sort_key (played_time utc_clock) (owned_rows alice ?w0)))\<rparr>)"
    using loadGames_signed_in[of ?w0 alice utc_clock entry_form] by simp
  have rows: "owned_rows alice ?w0 =
      [game_row 1 ''2024-05-01T10:00:00.000Z'' 2, game_row 3 ''2024-05-03T18:30:00.000Z'' 0]"
    by (simp add: owned_rows_def club_service_def alice_def)
  have g: "games ?s1 \<noteq> []" by (simp add: load rows)
  have h1: "fst (session ?w1) = None" by simp
  have h2: "fst (session (club_service (None, None) None)) = None" by simp
  note expired = unauthenticated_submission_writes_nothing[OF h1, of utc_clock ?s1]
  note never = unauthenticated_submission_writes_nothing[OF h2, of utc_clock entry_form]
  have m: "message_or ''Failed to add game'' session_missing = ''Auth session missing!''"
    by (simp add: message_or_def session_missing_def)
  have r: "requests ?w1 = [GetUser, Select (recent_query alice)]" by (simp add: load)
  from expired have e1: "error (snd (addGame utc_clock ?w1 ?s1)) = Some ''Auth session missing!''"
    and e2: "requests (fst (addGame utc_clock ?w1 ?s1)) = requests ?w1 @ [GetUser]"
    by (simp_all add: m)
  from never have n1: "error (snd (addGame utc_clock (club_service (None, None) None) entry_form))
      = Some ''Not signed in''"
    and n2: "games_table (fst (addGame utc_clock (club_service (None, None) None) entry_form))
      = games_table (club_service (None, None) None)"
    by simp_all
  from g h1 e1 e2 r n1 n2 show ?thesis by simp
qed

text \<open>
  Claim C6. For a signed-in user and a store that answers the read, \<^verbatim>\<open>loadGames\<close>
  asks for the rows of that user, most recent first, at most 25: the games it
  stores are the first 25 of the user's rows in descending order of time, so at most
  25, all of them the user's, descending; no error is shown; a user without rows gets
  the empty list.
\<close>

theorem recent_games_query:
  assumes "session w = (Some u, None)" and "select_error w = None"
  shows "requests (fst (loadGames env w s))
           = requests w @ [GetUser, Select \<lparr>eq_user_id = uid u, order_ascending = False, limit = 25\<rparr>] \<and>
         games (snd (loadGames env w s))
           = take 25 (rev (sort_key (played_time env) (owned_rows u w))) \<and>
         length (games (snd (loadGames env w s))) \<le> 25 \<and>
         set (games (snd (loadGames env w s))) \<subseteq> set (owned_rows u w) \<and>
         sorted (rev (map (played_time env) (games (snd (loadGames env w s))))) \<and>
         error (snd (loadGames env w s)) = None \<and>
         (owned_rows u w = [] \<longrightarrow> games (snd (loadGames env w s)) = [])"
proof -
  note eq = loadGames_signed_in[OF assms]
  let ?d = "rev (sort_key (played_time env) (owned_rows u w))"
  have "set (take 25 ?d) \<subseteq> set (owned_rows u w)"
    using set_take_subset[of 25 ?d] by simp
  moreover have "sorted (rev (map (played_time env) (take 25 ?d)))"
  proof -
    have "rev (map (played_time env) (take 25 ?d))
        = drop (length (owned_rows u w) - 25) (map (played_time env) (sort_key (played_time env) (owned_rows u w)))"
      by (simp add: take_rev rev_map drop_map)
    then show ?thesis by (simp add: sorted_wrt_drop del: drop_map)
  qed
  ultimately show ?thesis by (simp add: eq recent_query_def)
qed

theorem recent_games_query_witness:
  "games (snd (loadGames utc_clock (club_service (Some alice, None) None) entry_form))
     = [game_row 3 ''2024-05-03T18:30:00.000Z'' 0, game_row 1 ''2024-05-01T10:00:00.000Z'' 2] \<and>
   owned_rows carol (club_service (Some carol, None) None) = [] \<and>
   games (snd (loadGames utc_clock (club_service (Some carol, None) None) entry_form)) = [] \<and>
   error (snd (loadGames utc_clock (club_service (Some carol, None) None) entry_form)) = None"
proof -
  have rows: "owned_rows alice (club_service (Some alice, None) None) =
      [game_row 1 ''2024-05-01T10:00:00.000Z'' 2, game_row 3 ''2024-05-03T18:30:00.000Z'' 0]"
    by (simp add: owned_rows_def club_service_def alice_def)
  have none: "owned_rows carol (club_service (Some carol, None) None) = []"
    by (simp add: owned_rows_def club_service_def carol_def)
  note a = recent_games_query[of "club_service (Some alice, None) None" alice utc_clock entry_form]
  note c = recent_games_query[of "club_service (Some carol, None) None" carol utc_clock entry_form]
  from a have "games (snd (loadGames utc_clock (club_service (Some alice, None) None) entry_form))
      = take 25 (rev (sort_key (played_time utc_clock)
          (owned_rows alice (club_service (Some alice, None) None))))"
    by simp
  then have ga: "games (snd (loadGames utc_clock (club_service (Some alice, None) None) entry_form))
     = [game_row 3 ''2024-05-03T18:30:00.000Z'' 0, game_row 1 ''2024-05-01T10:00:00.000Z'' 2]"
    by (simp add: rows)
  from c none have "games (snd (loadGames utc_clock (club_service (Some carol, None) None) entry_form)) = []"
    and "error (snd (loadGames utc_clock (club_service (Some carol, None) None) entry_form)) = None"
    by simp_all
  with ga none show ?thesis by simp
qed

text \<open>
  Claim C9. The \<^verbatim>\<open>location\<close> that \<^verbatim>\<open>addGame\<close> sends to the store, and that
  the store keeps when it accepts the write, is the trimmed text of the form's field,
  or null when nothing is left after trimming; it is never the empty string.
\<close>

theorem location_trimmed_or_null:
  assumes "session w = (Some u, None)"
    and "toPlayedAt env (date s) (time s) = Inr played"
  shows "take 2 (drop (length (requests w)) (requests (fst (addGame env w s))))
           = [GetUser, Insert (payload u played s)] \<and>
         location (payload u played s)
           = (if trim (location' s) = [] then None else Some (trim (location' s))) \<and>
         location (payload u played s) \<noteq> Some [] \<and>
         (insert_error w = None \<longrightarrow>
            games_table (fst (addGame env w s))
              = games_table w @ [stored_row (next_id (games_table w)) (payload u played s)] \<and>
            location (snd (last (games_table (fst (addGame env w s)))))
              = (if trim (location' s) = [] then None else Some (trim (location' s))))"
proof -
  have loc: "location (payload u played s)
      = (if trim (location' s) = [] then None else Some (trim (location' s)))"
    by (simp add: payload_def location_or_null_def Let_def)
  have req: "take 2 (drop (length (requests w)) (requests (fst (addGame env w s))))
      = [GetUser, Insert (payload u played s)]"
  proof (cases "insert_error w")
    case None
    have "session (after_insert (payload u played s) w) = (Some u, None)"
      by (simp add: after_insert_simps assms(1))
    from loadGames_requests[OF this] show ?thesis
      by (simp add: accepted_state(2)[OF assms None] after_insert_simps)
  next
    case (Some e)
    show ?thesis by (simp add: addGame_rejected[OF assms Some])
  qed
  have tab: "games_table (fst (addGame env w s))
      = games_table w @ [stored_row (next_id (games_table w)) (payload u played s)]"
    if "insert_error w = None"
    by (simp add: accepted_state(2)[OF assms that] loadGames_table after_insert_simps)
  have "location (snd (stored_row n p)) = location p" for n p
    by (simp add: stored_row_def)
  with loc req tab show ?thesis by simp
qed

theorem location_trimmed_or_null_witness:
  "location (payload alice ''2024-05-08T09:15:00.000Z'' entry_form) = Some ''Court 3'' \<and>
   location (snd (last (games_table
      (fst (addGame utc_clock (club_service (Some alice, None) None) entry_form)))))
     = Some ''Court 3'' \<and>
   location (snd (last (games_table
      (fst (addGame utc_clock (club_service (Some alice, None) None)
              (entry_form\<lparr>location' := ''   ''\<rparr>))))))
     = None"
proof -
  have s: "session (club_service (Some alice, None) None) = (Some alice, None)" by simp
  have p: "toPlayedAt utc_clock (date (entry_form\<lparr>location' := ''   ''\<rparr>))
             (time (entry_form\<lparr>location' := ''   ''\<rparr>)) = Inr ''2024-05-08T09:15:00.000Z''"
    using entry_form_played by simp
  note named = location_trimmed_or_null[OF s entry_form_played]
  note blank = location_trimmed_or_null[OF s p]
  have l1: "location' entry_form = ''  Court 3 ''" by (simp add: entry_form_def)
  have l2: "trim ''   '' = []" by (simp add: trim_def is_white_space_def)
  have i: "insert_error (club_service (Some alice, None) None) = None" by simp
  from named have n1: "location (payload alice ''2024-05-08T09:15:00.000Z'' entry_form)
      = Some ''Court 3''"
    by (simp add: l1 trim_court)
  from named i have "location (snd (last (games_table
        (fst (addGame utc_clock (club_service (Some alice, None) None) entry_form)))))
      = (if trim (location' entry_form) = [] then None else Some (trim (location' entry_form)))"
    by blast
  then have n2: "location (snd (last (games_table
        (fst (addGame utc_clock (club_service (Some alice, None) None) entry_form)))))
      = Some ''Court 3''"
    by (simp add: l1 trim_court)
  from blank i have "location (snd (last (games_table
        (fst (addGame utc_clock (club_service (Some alice, None) None)
                (entry_form\<lparr>location' := ''   ''\<rparr>))))))
      = (if trim (location' (entry_form\<lparr>location' := ''   ''\<rparr>)) = [] then None
         else Some (trim (location' (entry_form\<lparr>location' := ''   ''\<rparr>))))"
    by blast
  then have b: "location (snd (last (games_table
        (fst (addGame utc_clock (club_service (Some alice, None) None)
                (entry_form\<lparr>location' := ''   ''\<rparr>))))))
      = None"
    by (simp add: l2)
  from n1 n2 b show ?thesis by blast
qed

text \<open>
  Claim C10. After a submission the store accepted, the tally is all zeros and the
  form's date, time, two scores and location (and the open fault editor, if any) are
  what they were.
\<close>

theorem successful_submission_resets_only_faults:
  assumes "session w = (Some u, None)"
    and "toPlayedAt env (date s) (time s) = Inr played"
    and "insert_error w = None"
  shows "faults (snd (addGame env w s)) = no_faults \<and>
         date (snd (addGame env w s)) = date s \<and>
         time (snd (addGame env w s)) = time s \<and>
         myPoints (snd (addGame env w s)) = myPoints s \<and>
         oppPoints (snd (addGame env w s)) = oppPoints s \<and>
         location' (snd (addGame env w s)) = location' s \<and>
         editingFault (snd (addGame env w s)) = editingFault s"
  by (simp add: accepted_state(1)[OF assms] loadGames_frame)

theorem successful_submission_resets_only_faults_witness:
  "faults entry_form \<noteq> no_faults \<and>
   faults (snd (addGame utc_clock (club_service (Some alice, None) None) entry_form)) = no_faults \<and>
   date (snd (addGame utc_clock (club_service (Some alice, None) None) entry_form)) = ''2024-05-08'' \<and>
   time (snd (addGame utc_clock (club_service (Some alice, None) None) entry_form)) = ''09:15'' \<and>
   myPoints (snd (addGame utc_clock (club_service (Some alice, None) None) entry_form)) = 11 \<and>
   oppPoints (snd (addGame utc_clock (club_service (Some alice, None) None) entry_form)) = 8 \<and>
   location' (snd (addGame utc_clock (club_service (Some alice, None) None) entry_form))
     = ''  Court 3 ''"
proof -
  have s: "session (club_service (Some alice, None) None) = (Some alice, None)" by simp
  have i: "insert_error (club_service (Some alice, None) None) = None" by simp
  have f: "faults entry_form \<noteq> no_faults" by (simp add: entry_form_def no_faults_def)
  from successful_submission_resets_only_faults[OF s entry_form_played i] f show ?thesis
    by (simp add: entry_form_def initial_def)
qed

end
